theory Spec2Isabelle
  imports Main "HOL-Library.Word"
begin

section \<open>Values on the wire\<close>

text \<open>
  A WebSocket frame is either binary (an \<open>ArrayBuffer\<close>, since the relay sets
  \<open>binaryType = "arraybuffer"\<close>) or text (a JavaScript string).
\<close>

datatype wsdata = ArrayBuffer "8 word list" | Str string

text \<open>
  JavaScript truthiness of a value of type \<open>ArrayBuffer | string | null\<close>: \<open>null\<close> and
  the empty string are falsy, every object (also an empty buffer) is truthy.
\<close>

fun truthy :: "wsdata option \<Rightarrow> bool" where
  "truthy None = False"
| "truthy (Some (Str s)) = (s \<noteq> [])"
| "truthy (Some (ArrayBuffer b)) = True"

subsection \<open>JSON.stringify on the objects the relay builds\<close>

datatype json = JString string | JNumber nat | JBool bool | JObject "(string \<times> json) list"

definition digitChar :: "nat \<Rightarrow> char" where
  "digitChar n = char_of (48 + n)"

fun showNat :: "nat \<Rightarrow> string" where
  "showNat n = (if n < 10 then [digitChar n] else showNat (n div 10) @ [digitChar (n mod 10)])"

declare showNat.simps [simp del]

definition hexChar :: "nat \<Rightarrow> char" where
  "hexChar n = (if n < 10 then char_of (48 + n) else char_of (87 + n))"

text \<open>\<open>QuoteJSONString\<close> of ECMAScript, on code units below 256.\<close>

definition quoteChar :: "char \<Rightarrow> string" where
  "quoteChar c =
     (if c = CHR 0x22 then [CHR 0x5C, CHR 0x22]
      else if c = CHR 0x5C then [CHR 0x5C, CHR 0x5C]
      else if c = CHR 0x08 then [CHR 0x5C, CHR ''b'']
      else if c = CHR 0x0C then [CHR 0x5C, CHR ''f'']
      else if c = CHR 0x0A then [CHR 0x5C, CHR ''n'']
      else if c = CHR 0x0D then [CHR 0x5C, CHR ''r'']
      else if c = CHR 0x09 then [CHR 0x5C, CHR ''t'']
      else if (of_char c :: nat) < 32
        then [CHR 0x5C, CHR ''u'', CHR ''0'', CHR ''0'',
              hexChar ((of_char c :: nat) div 16), hexChar ((of_char c :: nat) mod 16)]
      else [c])"

definition quoteJSONString :: "string \<Rightarrow> string" where
  "quoteJSONString s = [CHR 0x22] @ concat (map quoteChar s) @ [CHR 0x22]"

fun joinWith :: "string \<Rightarrow> string list \<Rightarrow> string" where
  "joinWith sep [] = []"
| "joinWith sep [x] = x"
| "joinWith sep (x # y # ys) = x @ sep @ joinWith sep (y # ys)"

fun JSON_stringify :: "json \<Rightarrow> string" where
  "JSON_stringify (JString s) = quoteJSONString s"
| "JSON_stringify (JNumber n) = showNat n"
| "JSON_stringify (JBool b) = (if b then ''true'' else ''false'')"
| "JSON_stringify (JObject kvs) =
     ''{'' @ joinWith '','' (map (\<lambda>(k, v). quoteJSONString k @ '':'' @ JSON_stringify v) kvs) @ ''}''"

declare JSON_stringify.simps [simp del]

subsection \<open>The clock: \<open>new Date().toISOString()\<close>\<close>

text \<open>
  The runtime's clock reading, as the UTC calendar fields of the \<open>Date\<close> object.
\<close>

record date =
  year :: nat
  month :: nat
  day :: nat
  hours :: nat
  minutes :: nat
  seconds :: nat
  milliseconds :: nat

definition padStart :: "nat \<Rightarrow> string \<Rightarrow> string" where
  "padStart w s = replicate (w - length s) (CHR ''0'') @ s"

text \<open>Years above 9999 are printed in the expanded form \<open>+YYYYYY\<close>.\<close>

definition toISOString :: "date \<Rightarrow> string" where
  "toISOString d =
     (if year d \<le> 9999 then padStart 4 (showNat (year d))
      else ''+'' @ padStart 6 (showNat (year d)))
     @ ''-'' @ padStart 2 (showNat (month d))
     @ ''-'' @ padStart 2 (showNat (day d))
     @ ''T'' @ padStart 2 (showNat (hours d))
     @ '':'' @ padStart 2 (showNat (minutes d))
     @ '':'' @ padStart 2 (showNat (seconds d))
     @ ''.'' @ padStart 3 (showNat (milliseconds d))
     @ ''Z''"

definition validDate :: "date \<Rightarrow> bool" where
  "validDate d = (year d \<le> 9999 \<and> 1 \<le> month d \<and> month d \<le> 12 \<and> 1 \<le> day d \<and> day d \<le> 31
     \<and> hours d < 24 \<and> minutes d < 60 \<and> seconds d < 60 \<and> milliseconds d < 1000)"

text \<open>
  A string matches a template when it has the template's length, a decimal digit wherever
  the template has \<open>d\<close>, and the template's own character everywhere else.
\<close>

definition isDigit :: "char \<Rightarrow> bool" where
  "isDigit c = (48 \<le> (of_char c :: nat) \<and> (of_char c :: nat) \<le> 57)"

fun matches :: "string \<Rightarrow> string \<Rightarrow> bool" where
  "matches [] [] = True"
| "matches (p # ps) (c # cs) = ((if p = CHR ''d'' then isDigit c else p = c) \<and> matches ps cs)"
| "matches _ _ = False"

definition isISO8601 :: "string \<Rightarrow> bool" where
  "isISO8601 s = matches ''dddd-dd-ddTdd:dd:dd.dddZ'' s"

section \<open>The relay and its runtime\<close>

text \<open>
  A viewer socket (the server end of a \<open>WebSocketPair\<close>). Whether a call of \<open>send\<close>
  throws is decided by the runtime: \<open>failScript\<close> lists the outcomes of the next calls
  (\<open>True\<close>: the call throws) and \<open>failRest\<close> is the outcome of every call after them.
  \<open>inbox\<close> holds the frames the viewer has been sent, oldest first.
\<close>

record transport =
  failScript :: "bool list"
  failRest :: bool
  inbox :: "wsdata list"

datatype readyState = CONNECTING | OPEN | CLOSING | CLOSED

text \<open>An upstream socket made by \<open>new WebSocket(url)\<close>.\<close>

record upstream =
  url :: string
  readyState :: readyState
  closeEventFired :: bool

text \<open>
  The fields of class \<open>StreamRelay\<close> (first block), followed by the runtime objects the
  class holds references to: the store of viewer sockets and of upstream sockets (both
  addressed by a number), the live timers, and whether \<open>new WebSocket\<close> throws for a URL.
\<close>

record world =
  stateId :: string
  streamId :: string
  sfuConnection :: "nat option"
  clients :: "(string \<times> nat) list"
  codecDescription :: "wsdata option"
  reconnectTimeout :: "nat option"
  heartbeatInterval :: "nat option"
  isConnectedToSFU :: bool
  sfuUrl :: string
  currentWsUrl :: "string option"
  sockets :: "nat \<Rightarrow> transport"
  nextSocket :: nat
  upstreams :: "nat \<Rightarrow> upstream"
  nextUpstream :: nat
  liveTimeouts :: "nat set"
  liveIntervals :: "nat set"
  nextTimer :: nat
  wsCtorThrows :: "string \<Rightarrow> bool"

datatype exn = SendError

subsection \<open>Runtime primitives\<close>

definition nextThrows :: "transport \<Rightarrow> bool" where
  "nextThrows t = (case failScript t of [] \<Rightarrow> failRest t | b # bs \<Rightarrow> b)"

definition afterCall :: "transport \<Rightarrow> transport" where
  "afterCall t = t\<lparr>failScript := tl (failScript t)\<rparr>"

text \<open>\<open>socket.send(data)\<close>: throws, or appends the frame to the viewer's inbox.\<close>

definition ws_send :: "nat \<Rightarrow> wsdata \<Rightarrow> world \<Rightarrow> (exn + unit) \<times> world" where
  "ws_send h d w =
     (let t = sockets w h in
      if nextThrows t
      then (Inl SendError, w\<lparr>sockets := (sockets w)(h := afterCall t)\<rparr>)
      else (Inr (), w\<lparr>sockets := (sockets w)(h := (afterCall t)\<lparr>inbox := inbox t @ [d]\<rparr>)\<rparr>))"

text \<open>\<open>upstream.close()\<close> starts the closing handshake unless the socket is closed already.\<close>

definition ws_close :: "nat \<Rightarrow> world \<Rightarrow> world" where
  "ws_close c w =
     (if readyState (upstreams w c) = CLOSED then w
      else w\<lparr>upstreams := (upstreams w)(c := (upstreams w c)\<lparr>readyState := CLOSING\<rparr>)\<rparr>)"

definition clearTimeout :: "nat \<Rightarrow> world \<Rightarrow> world" where
  "clearTimeout h w = w\<lparr>liveTimeouts := liveTimeouts w - {h}\<rparr>"

definition clearInterval :: "nat \<Rightarrow> world \<Rightarrow> world" where
  "clearInterval h w = w\<lparr>liveIntervals := liveIntervals w - {h}\<rparr>"

definition setTimeout :: "world \<Rightarrow> nat \<times> world" where
  "setTimeout w = (nextTimer w, w\<lparr>liveTimeouts := insert (nextTimer w) (liveTimeouts w),
                                    nextTimer := Suc (nextTimer w)\<rparr>)"

definition setInterval :: "world \<Rightarrow> nat \<times> world" where
  "setInterval w = (nextTimer w, w\<lparr>liveIntervals := insert (nextTimer w) (liveIntervals w),
                                     nextTimer := Suc (nextTimer w)\<rparr>)"

subsection \<open>The \<open>clients\<close> map\<close>

text \<open>
  A JavaScript \<open>Map\<close> keeps its entries in insertion order: \<open>set\<close> on a present key
  replaces the value in place, on a new key appends an entry.
\<close>

definition clients_get :: "string \<Rightarrow> world \<Rightarrow> nat option" where
  "clients_get cid w = map_of (clients w) cid"

definition clients_set :: "string \<Rightarrow> nat \<Rightarrow> world \<Rightarrow> world" where
  "clients_set cid h w =
     (if cid \<in> set (map fst (clients w))
      then w\<lparr>clients := map (\<lambda>(k, v). if k = cid then (k, h) else (k, v)) (clients w)\<rparr>
      else w\<lparr>clients := clients w @ [(cid, h)]\<rparr>)"

definition clients_delete :: "string \<Rightarrow> world \<Rightarrow> world" where
  "clients_delete cid w = w\<lparr>clients := filter (\<lambda>(k, v). k \<noteq> cid) (clients w)\<rparr>"

subsection \<open>Methods of \<open>StreamRelay\<close>\<close>

text \<open>\<open>String.prototype.split\<close> with a one-character separator.\<close>

fun js_split :: "char \<Rightarrow> string \<Rightarrow> string list" where
  "js_split sep [] = [[]]"
| "js_split sep (c # cs) =
     (if c = sep then [] # js_split sep cs
      else (case js_split sep cs of [] \<Rightarrow> [[c]] | x # xs \<Rightarrow> (c # x) # xs))"

text \<open>Indexing a JavaScript array: \<open>undefined\<close> (here \<open>None\<close>) out of range.\<close>

definition js_index :: "'a list \<Rightarrow> nat \<Rightarrow> 'a option" where
  "js_index xs i = (if i < length xs then Some (xs ! i) else None)"

text \<open>
  \<open>a || b\<close> on an optional string: \<open>undefined\<close> and the empty string are falsy.
\<close>

definition js_or :: "string option \<Rightarrow> string \<Rightarrow> string" where
  "js_or a b = (case a of None \<Rightarrow> b | Some s \<Rightarrow> if s = [] then b else s)"

text \<open>
  The constructor gets \<open>state.id\<close> (its string form \<open>idString\<close> and its optional \<open>name\<close>)
  and \<open>env.SFU_SERVER_URL\<close>. The runtime starts with no socket and no timer.
\<close>

definition constructor :: "string \<Rightarrow> string option \<Rightarrow> string option \<Rightarrow> (string \<Rightarrow> bool) \<Rightarrow> world" where
  "constructor idString name SFU_SERVER_URL ctorThrows =
     \<lparr>stateId = idString,
      streamId = js_or (case name of None \<Rightarrow> None | Some n \<Rightarrow> js_index (js_split (CHR '':'') n) 1)
                       ''test_stream'',
      sfuConnection = None,
      clients = [],
      codecDescription = None,
      reconnectTimeout = None,
      heartbeatInterval = None,
      isConnectedToSFU = False,
      sfuUrl = js_or SFU_SERVER_URL ''ws://127.0.0.1:5500'',
      currentWsUrl = None,
      sockets = (\<lambda>h. \<lparr>failScript = [], failRest = False, inbox = []\<rparr>),
      nextSocket = 0,
      upstreams = (\<lambda>c. \<lparr>url = [], readyState = CLOSED, closeEventFired = True\<rparr>),
      nextUpstream = 0,
      liveTimeouts = {},
      liveIntervals = {},
      nextTimer = 0,
      wsCtorThrows = ctorThrows\<rparr>"

definition handleClientDisconnect :: "string \<Rightarrow> world \<Rightarrow> world" where
  "handleClientDisconnect clientId w =
     (let w1 = clients_delete clientId w in
      if length (clients w1) = 0 then
        (let w2 = (case sfuConnection w1 of
                     Some c \<Rightarrow> (ws_close c w1)\<lparr>sfuConnection := None\<rparr>
                   | None \<Rightarrow> w1);
             w3 = w2\<lparr>isConnectedToSFU := False\<rparr>;
             w4 = (case reconnectTimeout w3 of
                     Some h \<Rightarrow> (clearTimeout h w3)\<lparr>reconnectTimeout := None\<rparr>
                   | None \<Rightarrow> w3)
         in (case heartbeatInterval w4 of
               Some h \<Rightarrow> (clearInterval h w4)\<lparr>heartbeatInterval := None\<rparr>
             | None \<Rightarrow> w4))
      else w1)"

text \<open>
  The loop \<open>for (const [clientId, client] of this.clients.entries())\<close> with the body
  \<open>try { client.send(data) } catch { this.handleClientDisconnect(clientId) }\<close>, which
  \<open>fanOutToClients\<close> and \<open>broadcastStatusToClients\<close> both have. The iterator is live:
  the keys are those present when the loop starts, and an entry deleted before its turn is
  not visited.
\<close>

fun sendLoop :: "wsdata \<Rightarrow> string list \<Rightarrow> world \<Rightarrow> world" where
  "sendLoop d [] w = w"
| "sendLoop d (clientId # rest) w =
     (case clients_get clientId w of
        None \<Rightarrow> sendLoop d rest w
      | Some client \<Rightarrow>
          (case ws_send client d w of
             (Inr u, w') \<Rightarrow> sendLoop d rest w'
           | (Inl e, w') \<Rightarrow> sendLoop d rest (handleClientDisconnect clientId w')))"

definition fanOutToClients :: "wsdata \<Rightarrow> world \<Rightarrow> world" where
  "fanOutToClients d w = sendLoop d (map fst (clients w)) w"

definition sendStatusToClient :: "string \<Rightarrow> string \<Rightarrow> date \<Rightarrow> world \<Rightarrow> world" where
  "sendStatusToClient clientId message now w =
     (case clients_get clientId w of
        None \<Rightarrow> w
      | Some client \<Rightarrow>
          (case ws_send client
                  (Str (JSON_stringify (JObject
                     [(''type'', JString ''status''),
                      (''message'', JString message),
                      (''timestamp'', JString (toISOString now)),
                      (''isConnectedToSFU'', JBool (isConnectedToSFU w))]))) w of
             (Inr u, w') \<Rightarrow> w'
           | (Inl e, w') \<Rightarrow> handleClientDisconnect clientId w'))"

definition broadcastStatusToClients :: "string \<Rightarrow> date \<Rightarrow> world \<Rightarrow> world" where
  "broadcastStatusToClients message now w =
     (let statusMessage = JSON_stringify (JObject
            [(''type'', JString ''status''),
             (''message'', JString message),
             (''timestamp'', JString (toISOString now)),
             (''isConnectedToSFU'', JBool (isConnectedToSFU w))])
      in sendLoop (Str statusMessage) (map fst (clients w)) w)"

definition scheduleReconnect :: "world \<Rightarrow> world" where
  "scheduleReconnect w =
     (if length (clients w) > 0 \<and> reconnectTimeout w = None
      then (case setTimeout w of (h, w') \<Rightarrow> w'\<lparr>reconnectTimeout := Some h\<rparr>)
      else w)"

text \<open>
  \<open>connectToSFU\<close>: everything is inside \<open>try\<close>; the one call that can throw is
  \<open>new WebSocket(wsUrl)\<close>, and then the \<open>catch\<close> block runs.
\<close>

definition connectToSFU :: "date \<Rightarrow> world \<Rightarrow> world" where
  "connectToSFU now w =
     (let w1 = (case reconnectTimeout w of
                  Some h \<Rightarrow> (clearTimeout h w)\<lparr>reconnectTimeout := None\<rparr>
                | None \<Rightarrow> w);
          wsUrl = sfuUrl w1 @ ''/consume/'' @ streamId w1;
          w2 = w1\<lparr>currentWsUrl := Some wsUrl\<rparr>
      in if wsCtorThrows w2 wsUrl
         then scheduleReconnect
                (broadcastStatusToClients ''Failed to connect to SFU'' now
                   (w2\<lparr>isConnectedToSFU := False\<rparr>))
         else w2\<lparr>upstreams := (upstreams w2)
                     (nextUpstream w2 := \<lparr>url = wsUrl, readyState = CONNECTING, closeEventFired = False\<rparr>),
                  nextUpstream := Suc (nextUpstream w2),
                  sfuConnection := Some (nextUpstream w2)\<rparr>)"

text \<open>The four listeners that \<open>connectToSFU\<close> registers on the upstream socket.\<close>

definition onSfuOpen :: "date \<Rightarrow> world \<Rightarrow> world" where
  "onSfuOpen now w =
     broadcastStatusToClients ''Connected to SFU server'' now (w\<lparr>isConnectedToSFU := True\<rparr>)"

text \<open>
  The message listener. Its last statement calls \<open>hibernateConnection\<close> only when the
  socket object has a property of that name, which a WebSocket does not have.
\<close>

definition onSfuMessage :: "wsdata \<Rightarrow> date \<Rightarrow> world \<Rightarrow> world" where
  "onSfuMessage d now w =
     (let w1 = (if \<not> truthy (codecDescription w)
                then broadcastStatusToClients ''Received codec information from SFU'' now
                       (w\<lparr>codecDescription := Some d\<rparr>)
                else w)
      in fanOutToClients d w1)"

definition onSfuClose :: "date \<Rightarrow> world \<Rightarrow> world" where
  "onSfuClose now w =
     scheduleReconnect
       (broadcastStatusToClients ''Disconnected from SFU, attempting to reconnect...'' now
          (w\<lparr>isConnectedToSFU := False\<rparr>))"

definition onSfuError :: "date \<Rightarrow> world \<Rightarrow> world" where
  "onSfuError now w =
     scheduleReconnect
       (broadcastStatusToClients ''Error connecting to SFU'' now (w\<lparr>isConnectedToSFU := False\<rparr>))"

definition startHeartbeat :: "world \<Rightarrow> world" where
  "startHeartbeat w =
     (let w1 = (case heartbeatInterval w of Some h \<Rightarrow> clearInterval h w | None \<Rightarrow> w)
      in (case setInterval w1 of (h, w2) \<Rightarrow> w2\<lparr>heartbeatInterval := Some h\<rparr>))"

text \<open>The callback of the heartbeat interval.\<close>

definition heartbeat :: "date \<Rightarrow> world \<Rightarrow> world" where
  "heartbeat now w =
     (let status = (if isConnectedToSFU w
                    then ''Connected to SFU, waiting for stream data...''
                    else ''Not connected to SFU: ''
                         @ (case currentWsUrl w of None \<Rightarrow> ''null'' | Some u \<Rightarrow> u)
                         @ '', attempting to connect...'')
      in broadcastStatusToClients status now w)"

subsection \<open>\<open>fetch\<close>\<close>

record request =
  upgradeHeader :: "string option"
  pathname :: string

record response =
  status :: nat
  body :: "string option"
  headers :: "(string \<times> string) list"
  webSocket :: "nat option"

text \<open>
  Besides the request, \<open>fetch\<close> gets from the runtime the unique id that
  \<open>crypto.randomUUID()\<close> returns, the new socket pair (\<open>server\<close> is its state on creation)
  and the clock. The state of the relay stays as it is when \<open>fetch\<close> throws.
\<close>

definition fetch :: "request \<Rightarrow> string \<Rightarrow> transport \<Rightarrow> date \<Rightarrow> world \<Rightarrow> (exn + response) \<times> world" where
  "fetch req clientId server now w =
     (if upgradeHeader req = Some ''websocket'' then
        (let sock = nextSocket w;
             w1 = w\<lparr>sockets := (sockets w)(sock := server), nextSocket := Suc sock\<rparr>;
             w2 = clients_set clientId sock w1;
             w3 = sendStatusToClient clientId
                    (''Connected to stream relay, state: '' @ stateId w2 @ ''. Waiting for media...'')
                    now w2;
             upgraded = \<lparr>status = 101, body = None, headers = [], webSocket = Some sock\<rparr>
         in if length (clients w3) = 1
            then (Inr upgraded, startHeartbeat (connectToSFU now w3))
            else if isConnectedToSFU w3 \<and> truthy (codecDescription w3)
            then (case codecDescription w3 of
                    None \<Rightarrow> (Inr upgraded, w3)
                  | Some codec \<Rightarrow>
                      (case ws_send sock codec w3 of
                         (Inl e, w4) \<Rightarrow> (Inl e, w4)
                       | (Inr u, w4) \<Rightarrow> (Inr upgraded, w4)))
            else (Inr upgraded, w3))
      else if pathname req = ''/health'' then
        (Inr \<lparr>status = 200,
              body = Some (JSON_stringify (JObject
                       [(''status'', JString ''ok''),
                        (''streamId'', JString (streamId w)),
                        (''clientCount'', JNumber (length (clients w))),
                        (''connectedToSFU'', JBool (isConnectedToSFU w))])),
              headers = [(''Content-Type'', ''application/json'')],
              webSocket = None\<rparr>, w)
      else (Inr \<lparr>status = 404, body = Some ''Not Found'', headers = [], webSocket = None\<rparr>, w))"

subsection \<open>Events\<close>

text \<open>
  The relay runs one handler at a time. The runtime delivers: a viewer's upgrade request
  (with the fresh id and the new socket's send behaviour), the close or error event of a
  viewer socket, the open, message, error and close events of an upstream socket, and the
  firing of a live timer. An upstream socket opens only while connecting, delivers messages
  only while open, reports an error at most once and before its close event, and fires its
  close event once, also after the relay called \<open>close()\<close> on it. The listeners are
  closures over the relay, not over the socket that fires them.
\<close>

datatype event =
    Join string "bool list" bool
  | ViewerClosed string
  | SfuOpen nat
  | SfuMessage nat wsdata
  | SfuError nat
  | SfuClose nat
  | ReconnectTimer nat
  | HeartbeatTimer nat

definition setReadyState :: "nat \<Rightarrow> readyState \<Rightarrow> world \<Rightarrow> world" where
  "setReadyState c r w = w\<lparr>upstreams := (upstreams w)(c := (upstreams w c)\<lparr>readyState := r\<rparr>)\<rparr>"

definition markClosed :: "nat \<Rightarrow> world \<Rightarrow> world" where
  "markClosed c w =
     w\<lparr>upstreams := (upstreams w)(c := (upstreams w c)\<lparr>readyState := CLOSED, closeEventFired := True\<rparr>)\<rparr>"

fun step :: "date \<Rightarrow> event \<Rightarrow> world \<Rightarrow> world option" where
  "step now (Join clientId fs fr) w =
     (if clientId \<in> set (map fst (clients w)) then None
      else Some (snd (fetch \<lparr>upgradeHeader = Some ''websocket'',
                              pathname = ''/stream/'' @ streamId w\<rparr> clientId
                        \<lparr>failScript = fs, failRest = fr, inbox = []\<rparr> now w)))"
| "step now (ViewerClosed clientId) w = Some (handleClientDisconnect clientId w)"
| "step now (SfuOpen c) w =
     (if c < nextUpstream w \<and> readyState (upstreams w c) = CONNECTING
      then Some (onSfuOpen now (setReadyState c OPEN w)) else None)"
| "step now (SfuMessage c d) w =
     (if c < nextUpstream w \<and> readyState (upstreams w c) = OPEN
      then Some (onSfuMessage d now w) else None)"
| "step now (SfuError c) w =
     (if c < nextUpstream w \<and> readyState (upstreams w c) \<noteq> CLOSED
      then Some (onSfuError now (setReadyState c CLOSED w)) else None)"
| "step now (SfuClose c) w =
     (if c < nextUpstream w \<and> \<not> closeEventFired (upstreams w c)
      then Some (onSfuClose now (markClosed c w)) else None)"
| "step now (ReconnectTimer h) w =
     (if h \<in> liveTimeouts w
      then Some (connectToSFU now (w\<lparr>liveTimeouts := liveTimeouts w - {h}\<rparr>)) else None)"
| "step now (HeartbeatTimer h) w =
     (if h \<in> liveIntervals w then Some (heartbeat now w) else None)"

text \<open>A run delivers events one after the other, each at its own clock reading.\<close>

fun run :: "(date \<times> event) list \<Rightarrow> world \<Rightarrow> world option" where
  "run [] w = Some w"
| "run ((now, e) # es) w = (case step now e w of None \<Rightarrow> None | Some w' \<Rightarrow> run es w')"

subsection \<open>The routing layer\<close>

text \<open>
  The \<open>/stream/\<close> branch of the main worker's \<open>fetch\<close>: the name of the Durable Object
  that serves a path, \<open>None\<close> when the path is not a stream path or the id is empty (the
  worker answers 400 then).
\<close>

definition streamObjectName :: "string \<Rightarrow> string option" where
  "streamObjectName path =
     (if take (length ''/stream/'') path = ''/stream/''
      then (let streamId = drop (length ''/stream/'') path
            in if streamId = [] then None else Some (''stream:'' @ streamId))
      else None)"

subsection \<open>The specification's view of the init-frame cache\<close>




fun isBinary :: "wsdata \<Rightarrow> bool" where
  "isBinary (ArrayBuffer b) = True"
| "isBinary (Str s) = False"

definition binaryFrames :: "nat \<Rightarrow> world \<Rightarrow> wsdata list" where
  "binaryFrames h w = filter isBinary (inbox (sockets w h))"

subsection \<open>The shape of a status message\<close>

definition statusFrame :: "string \<Rightarrow> date \<Rightarrow> bool \<Rightarrow> wsdata" where
  "statusFrame message now connected =
     Str (JSON_stringify (JObject
       [(''type'', JString ''status''),
        (''message'', JString message),
        (''timestamp'', JString (toISOString now)),
        (''isConnectedToSFU'', JBool connected)]))"

subsection \<open>Send behaviour of a viewer socket\<close>

definition alwaysThrows :: "transport \<Rightarrow> bool" where
  "alwaysThrows t = (list_all (\<lambda>b. b) (failScript t) \<and> failRest t)"

definition neverThrows :: "transport \<Rightarrow> bool" where
  "neverThrows t = (list_all (\<lambda>b. \<not> b) (failScript t) \<and> \<not> failRest t)"

subsection \<open>A concrete relay\<close>

text \<open>
  A relay for the stream \<open>alpha\<close> with no upstream address configured, in a runtime where
  \<open>new WebSocket\<close> does not throw, a clock reading, one video and one audio init frame, and
  the events of a viewer whose socket works and of one whose first \<open>send\<close> throws.
\<close>

definition noCtorFailure :: "string \<Rightarrow> bool" where
  "noCtorFailure u = False"

definition relay0 :: world where
  "relay0 = constructor ''0a1b'' (Some ''stream:alpha'') None noCtorFailure"

definition clock0 :: date where
  "clock0 = \<lparr>year = 2025, month = 1, day = 2, hours = 3, minutes = 4, seconds = 5,
             milliseconds = 6\<rparr>"

definition videoInit :: wsdata where
  "videoInit = ArrayBuffer [0, 9]"

definition audioInit :: wsdata where
  "audioInit = ArrayBuffer [1, 7]"

text \<open>
  The same relay configured with an address that \<open>new WebSocket\<close> rejects.
\<close>

definition rejectsAll :: "string \<Rightarrow> bool" where
  "rejectsAll u = True"

definition relayBadUrl :: world where
  "relayBadUrl = constructor ''0a1b'' (Some ''stream:alpha'') (Some ''sfu.example'') rejectsAll"

definition at0 :: "event \<Rightarrow> date \<times> event" where
  "at0 e = (clock0, e)"

definition afterEvents :: "event list \<Rightarrow> world" where
  "afterEvents es = (case run (map at0 es) relay0 of None \<Rightarrow> relay0 | Some w \<Rightarrow> w)"

subsection \<open>Auxiliary notions for the proofs\<close>

text \<open>
  The relay's upstream base address is \<open>b\<close> and its stream id is \<open>i\<close>, every upstream
  socket made so far was opened on \<open>b/consume/i\<close>, and so was the last attempt recorded in
  \<open>currentWsUrl\<close>.
\<close>

definition targetsOK :: "string \<Rightarrow> string \<Rightarrow> world \<Rightarrow> bool" where
  "targetsOK b i w =
     (sfuUrl w = b \<and> streamId w = i
      \<and> (\<forall>c<nextUpstream w. url (upstreams w c) = b @ ''/consume/'' @ i)
      \<and> (currentWsUrl w = None \<or> currentWsUrl w = Some (b @ ''/consume/'' @ i)))"

definition upstreamState :: "nat \<Rightarrow> world \<Rightarrow> readyState" where
  "upstreamState c w = readyState (upstreams w c)"

section \<open>Facts about the runtime primitives and the send loop\<close>

lemma alwaysThrows_next: "alwaysThrows t \<Longrightarrow> nextThrows t"
  by (cases "failScript t") (auto simp: alwaysThrows_def nextThrows_def)

lemma neverThrows_next: "neverThrows t \<Longrightarrow> \<not> nextThrows t"
  by (cases "failScript t") (auto simp: neverThrows_def nextThrows_def)

text \<open>One turn of the loop, with the two outcomes of \<open>send\<close> side by side.\<close>

lemma sendLoop_Cons:
  "sendLoop d (k # ks) w =
     (case clients_get k w of
        None \<Rightarrow> sendLoop d ks w
      | Some h \<Rightarrow> sendLoop d ks (if nextThrows (sockets w h)
                                 then handleClientDisconnect k (snd (ws_send h d w))
                                 else snd (ws_send h d w)))"
  by (simp add: ws_send_def Let_def split: option.splits)

lemma all_less_three: "(\<forall>j<3. P j) = (P 0 \<and> P (Suc 0) \<and> P (Suc (Suc 0)))"
  by (auto simp: numeral_3_eq_3 less_Suc_eq)

lemmas evals = relay0_def constructor_def fetch_def clients_set_def sendStatusToClient_def
  clients_get_def ws_send_def nextThrows_def afterCall_def handleClientDisconnect_def
  clients_delete_def connectToSFU_def startHeartbeat_def setInterval_def clearInterval_def
  setTimeout_def clearTimeout_def ws_close_def scheduleReconnect_def broadcastStatusToClients_def
  fanOutToClients_def onSfuOpen_def onSfuClose_def onSfuError_def onSfuMessage_def heartbeat_def
  setReadyState_def markClosed_def Let_def noCtorFailure_def js_or_def js_index_def at0_def
  videoInit_def audioInit_def relayBadUrl_def rejectsAll_def

subsection \<open>What never touches the cached frame\<close>

lemma codec_handleClientDisconnect [simp]:
  "codecDescription (handleClientDisconnect c w) = codecDescription w"
  by (simp add: handleClientDisconnect_def clients_delete_def ws_close_def clearTimeout_def
      clearInterval_def Let_def split: option.splits)

lemma codec_ws_send [simp]: "codecDescription (snd (ws_send h d w)) = codecDescription w"
  by (simp add: ws_send_def Let_def)

lemma codec_sendLoop [simp]: "codecDescription (sendLoop d ks w) = codecDescription w"
proof (induction ks arbitrary: w)
  case Nil
  show ?case by simp
next
  case (Cons k ks)
  show ?case by (simp only: sendLoop_Cons) (simp add: Cons.IH split: option.splits)
qed

lemma codec_broadcast [simp]:
  "codecDescription (broadcastStatusToClients m now w) = codecDescription w"
  by (simp add: broadcastStatusToClients_def Let_def)

lemma codec_fanOut [simp]: "codecDescription (fanOutToClients d w) = codecDescription w"
  by (simp add: fanOutToClients_def)

lemma codec_onSfuMessage:
  "codecDescription (onSfuMessage d now w) =
     (if truthy (codecDescription w) then codecDescription w else Some d)"
  by (simp add: onSfuMessage_def Let_def)

lemma codec_scheduleReconnect [simp]: "codecDescription (scheduleReconnect w) = codecDescription w"
  by (simp add: scheduleReconnect_def setTimeout_def)

lemma codec_connectToSFU [simp]: "codecDescription (connectToSFU now w) = codecDescription w"
  by (simp add: connectToSFU_def clearTimeout_def Let_def split: option.splits)

lemma codec_startHeartbeat [simp]: "codecDescription (startHeartbeat w) = codecDescription w"
  by (simp add: startHeartbeat_def clearInterval_def setInterval_def Let_def split: option.splits)

lemma codec_sendStatusToClient [simp]:
  "codecDescription (sendStatusToClient c m now w) = codecDescription w"
  by (simp add: sendStatusToClient_def ws_send_def Let_def split: option.splits)

lemma codec_fetch [simp]: "codecDescription (snd (fetch req c srv now w)) = codecDescription w"
  by (simp add: fetch_def clients_set_def ws_send_def Let_def split: option.splits)

lemma codec_step:
  "step now e w = Some w' \<Longrightarrow> codecDescription w = Some (ArrayBuffer b) \<Longrightarrow>
   codecDescription w' = Some (ArrayBuffer b)"
  by (cases e) (auto simp: codec_onSfuMessage onSfuOpen_def onSfuClose_def onSfuError_def
      heartbeat_def setReadyState_def markClosed_def Let_def split: if_splits)

lemma codec_run:
  "run es w = Some w' \<Longrightarrow> codecDescription w = Some (ArrayBuffer b) \<Longrightarrow>
   codecDescription w' = Some (ArrayBuffer b)"
proof (induction es arbitrary: w)
  case Nil
  then show ?case by simp
next
  case (Cons e es)
  obtain now ev where e: "e = (now, ev)" by (cases e)
  from Cons.prems(1) obtain w1 where s: "step now ev w = Some w1" and r: "run es w1 = Some w'"
    by (auto simp: e split: option.splits)
  from codec_step[OF s Cons.prems(2)] Cons.IH[OF r] show ?case by simp
qed

subsection \<open>Leaving twice\<close>

lemma clients_delete_idem: "clients_delete c (clients_delete c w) = clients_delete c w"
  by (simp add: clients_delete_def)

lemma clients_clients_delete: "clients (clients_delete c w) = filter (\<lambda>(k, v). k \<noteq> c) (clients w)"
  by (simp add: clients_delete_def)

lemma hcd_nonempty:
  "clients (clients_delete c w) \<noteq> [] \<Longrightarrow> handleClientDisconnect c w = clients_delete c w"
  by (simp add: handleClientDisconnect_def Let_def)

lemma hcd_settled:
  assumes "clients v = []" and "sfuConnection v = None" and "\<not> isConnectedToSFU v"
    and "reconnectTimeout v = None" and "heartbeatInterval v = None"
  shows "handleClientDisconnect c v = v"
proof -
  have d: "clients_delete c v = v" using assms(1) by (cases v) (simp add: clients_delete_def)
  have f: "v\<lparr>isConnectedToSFU := False\<rparr> = v" using assms(3) by (cases v) simp
  show ?thesis using assms by (simp add: handleClientDisconnect_def Let_def d f)
qed

lemma hcd_empty_clients:
  "clients (clients_delete c w) = [] \<Longrightarrow> clients (handleClientDisconnect c w) = []"
  by (simp add: handleClientDisconnect_def Let_def ws_close_def clearTimeout_def clearInterval_def
      split: option.splits)

lemma hcd_empty_sfu:
  "clients (clients_delete c w) = [] \<Longrightarrow> sfuConnection (handleClientDisconnect c w) = None"
  by (simp add: handleClientDisconnect_def Let_def ws_close_def clearTimeout_def clearInterval_def
      split: option.splits)

lemma hcd_empty_flag:
  "clients (clients_delete c w) = [] \<Longrightarrow> \<not> isConnectedToSFU (handleClientDisconnect c w)"
  by (simp add: handleClientDisconnect_def Let_def ws_close_def clearTimeout_def clearInterval_def
      split: option.splits)

lemma hcd_empty_timer:
  "clients (clients_delete c w) = [] \<Longrightarrow> reconnectTimeout (handleClientDisconnect c w) = None"
  by (simp add: handleClientDisconnect_def Let_def ws_close_def clearTimeout_def clearInterval_def
      split: option.splits)

lemma hcd_empty_heartbeat:
  "clients (clients_delete c w) = [] \<Longrightarrow> heartbeatInterval (handleClientDisconnect c w) = None"
  by (simp add: handleClientDisconnect_def Let_def ws_close_def clearTimeout_def clearInterval_def
      split: option.splits)

subsection \<open>The upstream target is fixed\<close>

lemma sendStatusToClient_alt:
  "sendStatusToClient c m now w =
     (case clients_get c w of
        None \<Rightarrow> w
      | Some h \<Rightarrow> (if nextThrows (sockets w h)
                   then handleClientDisconnect c
                          (snd (ws_send h (statusFrame m now (isConnectedToSFU w)) w))
                   else snd (ws_send h (statusFrame m now (isConnectedToSFU w)) w)))"
  by (simp add: sendStatusToClient_def statusFrame_def ws_send_def Let_def split: option.splits)

lemma broadcastStatusToClients_alt:
  "broadcastStatusToClients m now w =
     sendLoop (statusFrame m now (isConnectedToSFU w)) (map fst (clients w)) w"
  by (simp add: broadcastStatusToClients_def statusFrame_def Let_def)

lemma snd_fetch:
  "snd (fetch req c srv now w) =
     (if upgradeHeader req = Some ''websocket'' then
        (let w2 = clients_set c (nextSocket w)
                    (w\<lparr>sockets := (sockets w)(nextSocket w := srv), nextSocket := Suc (nextSocket w)\<rparr>);
             w3 = sendStatusToClient c
                    (''Connected to stream relay, state: '' @ stateId w2 @ ''. Waiting for media...'')
                    now w2
         in if length (clients w3) = 1 then startHeartbeat (connectToSFU now w3)
            else if isConnectedToSFU w3 \<and> truthy (codecDescription w3)
            then (case codecDescription w3 of
                    None \<Rightarrow> w3
                  | Some codec \<Rightarrow> snd (ws_send (nextSocket w) codec w3))
            else w3)
      else w)"
  by (simp add: fetch_def Let_def split: option.splits prod.splits sum.splits)

lemma sendLoop_frame:
  assumes "\<And>c v. f (handleClientDisconnect c v) = f v"
    and "\<And>h d v. f (snd (ws_send h d v)) = f v"
  shows "f (sendLoop d ks w) = f w"
proof (induction ks arbitrary: w)
  case Nil
  show ?case by simp
next
  case (Cons k ks)
  show ?case by (simp only: sendLoop_Cons) (simp add: Cons.IH assms split: option.splits)
qed

lemma targetsOK_cong:
  "sfuUrl w' = sfuUrl w \<Longrightarrow> streamId w' = streamId w \<Longrightarrow> nextUpstream w' = nextUpstream w \<Longrightarrow>
   currentWsUrl w' = currentWsUrl w \<Longrightarrow> (\<And>c. url (upstreams w' c) = url (upstreams w c)) \<Longrightarrow>
   targetsOK b i w' = targetsOK b i w"
  by (simp add: targetsOK_def)

lemma targetsOK_handleClientDisconnect [simp]:
  "targetsOK b i (handleClientDisconnect c w) = targetsOK b i w"
  by (rule targetsOK_cong)
     (simp_all add: handleClientDisconnect_def clients_delete_def ws_close_def
      clearTimeout_def clearInterval_def Let_def split: option.splits)

lemma targetsOK_ws_send [simp]: "targetsOK b i (snd (ws_send h d w)) = targetsOK b i w"
  by (simp add: targetsOK_def ws_send_def Let_def)

lemma targetsOK_sendLoop [simp]: "targetsOK b i (sendLoop d ks w) = targetsOK b i w"
  by (rule sendLoop_frame) simp_all

lemma targetsOK_broadcast [simp]:
  "targetsOK b i (broadcastStatusToClients m now w) = targetsOK b i w"
  by (simp add: broadcastStatusToClients_alt)

lemma targetsOK_fanOut [simp]: "targetsOK b i (fanOutToClients d w) = targetsOK b i w"
  by (simp add: fanOutToClients_def)

lemma targetsOK_scheduleReconnect [simp]: "targetsOK b i (scheduleReconnect w) = targetsOK b i w"
  by (simp add: targetsOK_def scheduleReconnect_def setTimeout_def)

lemma targetsOK_startHeartbeat [simp]: "targetsOK b i (startHeartbeat w) = targetsOK b i w"
  by (simp add: targetsOK_def startHeartbeat_def clearInterval_def setInterval_def Let_def
      split: option.splits)

lemma targetsOK_sendStatusToClient [simp]:
  "targetsOK b i (sendStatusToClient c m now w) = targetsOK b i w"
  by (simp add: sendStatusToClient_alt split: option.splits)

lemma targetsOK_flag [simp]: "targetsOK b i (w\<lparr>isConnectedToSFU := x\<rparr>) = targetsOK b i w"
  by (simp add: targetsOK_def)

lemma targetsOK_codec [simp]: "targetsOK b i (w\<lparr>codecDescription := x\<rparr>) = targetsOK b i w"
  by (simp add: targetsOK_def)

lemma targetsOK_liveTimeouts [simp]: "targetsOK b i (w\<lparr>liveTimeouts := x\<rparr>) = targetsOK b i w"
  by (simp add: targetsOK_def)

lemma targetsOK_setReadyState [simp]: "targetsOK b i (setReadyState c r w) = targetsOK b i w"
  by (rule targetsOK_cong) (simp_all add: setReadyState_def)

lemma targetsOK_markClosed [simp]: "targetsOK b i (markClosed c w) = targetsOK b i w"
  by (rule targetsOK_cong) (simp_all add: markClosed_def)

lemma targetsOK_clients_set [simp]: "targetsOK b i (clients_set c h w) = targetsOK b i w"
  by (simp add: targetsOK_def clients_set_def)

lemma targetsOK_newSocket [simp]:
  "targetsOK b i (w\<lparr>sockets := s, nextSocket := n\<rparr>) = targetsOK b i w"
  by (simp add: targetsOK_def)

lemma targetsOK_connectToSFU: "targetsOK b i w \<Longrightarrow> targetsOK b i (connectToSFU now w)"
proof -
  assume ok: "targetsOK b i w"
  define t where "t = b @ ''/consume/'' @ i"
  define v where "v = (case reconnectTimeout w of
                  Some h \<Rightarrow> (clearTimeout h w)\<lparr>reconnectTimeout := None\<rparr>
                | None \<Rightarrow> w)"
  have v: "sfuUrl v = sfuUrl w" "streamId v = streamId w" "nextUpstream v = nextUpstream w"
    "upstreams v = upstreams w" "wsCtorThrows v = wsCtorThrows w"
    by (simp_all add: v_def clearTimeout_def split: option.splits)
  have c: "connectToSFU now w =
      (if wsCtorThrows w t
       then scheduleReconnect (broadcastStatusToClients ''Failed to connect to SFU'' now
              (v\<lparr>currentWsUrl := Some t, isConnectedToSFU := False\<rparr>))
       else v\<lparr>currentWsUrl := Some t,
              upstreams := (upstreams w)
                (nextUpstream w := \<lparr>url = t, readyState = CONNECTING, closeEventFired = False\<rparr>),
              nextUpstream := Suc (nextUpstream w),
              sfuConnection := Some (nextUpstream w)\<rparr>)"
    using ok v unfolding connectToSFU_def v_def[symmetric] Let_def
    by (simp add: targetsOK_def t_def)
  have a: "targetsOK b i (v\<lparr>currentWsUrl := Some t\<rparr>)"
    using ok v by (simp add: targetsOK_def t_def)
  have b: "targetsOK b i (v\<lparr>currentWsUrl := Some t,
              upstreams := (upstreams w)
                (nextUpstream w := \<lparr>url = t, readyState = CONNECTING, closeEventFired = False\<rparr>),
              nextUpstream := Suc (nextUpstream w),
              sfuConnection := Some (nextUpstream w)\<rparr>)"
    using ok v by (simp add: targetsOK_def less_Suc_eq t_def)
  show ?thesis using a b by (simp add: c)
qed

lemma targetsOK_fetch: "targetsOK b i w \<Longrightarrow> targetsOK b i (snd (fetch req c srv now w))"
  by (simp add: snd_fetch Let_def targetsOK_connectToSFU split: option.splits)

lemma targetsOK_step: "step now e w = Some w' \<Longrightarrow> targetsOK b i w \<Longrightarrow> targetsOK b i w'"
proof (cases e)
  case (Join c fs fr)
  assume "step now e w = Some w'" "targetsOK b i w"
  then show ?thesis using Join by (auto simp: targetsOK_fetch split: if_splits)
next
  case (ViewerClosed c)
  assume "step now e w = Some w'" "targetsOK b i w"
  then show ?thesis using ViewerClosed by auto
next
  case (SfuOpen c)
  assume "step now e w = Some w'" "targetsOK b i w"
  then show ?thesis using SfuOpen by (auto simp: onSfuOpen_def split: if_splits)
next
  case (SfuMessage c d)
  assume "step now e w = Some w'" "targetsOK b i w"
  then show ?thesis using SfuMessage by (auto simp: onSfuMessage_def Let_def split: if_splits)
next
  case (SfuError c)
  assume "step now e w = Some w'" "targetsOK b i w"
  then show ?thesis using SfuError by (auto simp: onSfuError_def split: if_splits)
next
  case (SfuClose c)
  assume "step now e w = Some w'" "targetsOK b i w"
  then show ?thesis using SfuClose by (auto simp: onSfuClose_def split: if_splits)
next
  case (ReconnectTimer h)
  assume "step now e w = Some w'" "targetsOK b i w"
  then show ?thesis using ReconnectTimer by (auto simp: targetsOK_connectToSFU split: if_splits)
next
  case (HeartbeatTimer h)
  assume "step now e w = Some w'" "targetsOK b i w"
  then show ?thesis using HeartbeatTimer by (auto simp: heartbeat_def Let_def split: if_splits)
qed

lemma targetsOK_run: "run es w = Some w' \<Longrightarrow> targetsOK b i w \<Longrightarrow> targetsOK b i w'"
proof (induction es arbitrary: w)
  case Nil
  then show ?case by simp
next
  case (Cons e es)
  obtain now ev where e: "e = (now, ev)" by (cases e)
  from Cons.prems(1) obtain w1 where s: "step now ev w = Some w1" and r: "run es w1 = Some w'"
    by (auto simp: e split: option.splits)
  from Cons.IH[OF r targetsOK_step[OF s Cons.prems(2)]] show ?case .
qed

lemma targetsOK_constructor:
  "targetsOK (js_or env ''ws://127.0.0.1:5500'') (streamId (constructor idString name env thr))
             (constructor idString name env thr)"
  by (simp add: targetsOK_def constructor_def)

lemma currentWsUrl_handleClientDisconnect [simp]:
  "currentWsUrl (handleClientDisconnect c w) = currentWsUrl w"
  by (simp add: handleClientDisconnect_def clients_delete_def ws_close_def clearTimeout_def
      clearInterval_def Let_def split: option.splits)

lemma currentWsUrl_ws_send [simp]: "currentWsUrl (snd (ws_send h d w)) = currentWsUrl w"
  by (simp add: ws_send_def Let_def)

lemma currentWsUrl_connectToSFU:
  "currentWsUrl (connectToSFU now w) = Some (sfuUrl w @ ''/consume/'' @ streamId w)"
  by (simp add: connectToSFU_def Let_def clearTimeout_def scheduleReconnect_def setTimeout_def
      broadcastStatusToClients_alt sendLoop_frame[of currentWsUrl] split: option.splits)

subsection \<open>Timestamps and inboxes\<close>

lemma isDigit_digitChar: "n < 10 \<Longrightarrow> isDigit (digitChar n)"
  by (simp add: isDigit_def digitChar_def)

lemma isDigit_zero: "isDigit (CHR ''0'')"
  by (simp add: isDigit_def)

lemma showNat_digits: "list_all isDigit (showNat n)"
proof (induction n rule: showNat.induct)
  case (1 n)
  show ?case
  proof (cases "n < 10")
    case True
    then show ?thesis by (subst showNat.simps) (simp add: isDigit_digitChar)
  next
    case False
    with 1 show ?thesis by (subst showNat.simps) (simp add: isDigit_digitChar)
  qed
qed

lemma showNat_length: "n < 10 ^ k \<Longrightarrow> 0 < k \<Longrightarrow> length (showNat n) \<le> k"
proof (induction n arbitrary: k rule: showNat.induct)
  case (1 n)
  show ?case
  proof (cases "n < 10")
    case True
    then show ?thesis using 1(3) by (subst showNat.simps) simp
  next
    case False
    then obtain j where k: "k = Suc j" using 1(3) by (cases k) auto
    have j0: "0 < j" using False 1(2) k by (cases j) auto
    have "n div 10 < 10 ^ j" using 1(2) k by (simp add: less_mult_imp_div_less mult.commute)
    with 1(1)[OF False _ j0] have "length (showNat (n div 10)) \<le> j" by simp
    then show ?thesis using False k by (subst showNat.simps) simp
  qed
qed

lemma matches_append:
  "length p = length s \<Longrightarrow> matches (p @ p') (s @ s') = (matches p s \<and> matches p' s')"
  by (induction p s rule: matches.induct) auto

lemma matches_digits: "list_all isDigit s \<Longrightarrow> matches (replicate (length s) (CHR ''d'')) s"
  by (induction s) auto

lemma padStart_digits: "list_all isDigit (padStart k (showNat n))"
  using showNat_digits[of n] by (auto simp: padStart_def list_all_iff isDigit_zero)

lemma padStart_length: "n < 10 ^ k \<Longrightarrow> 0 < k \<Longrightarrow> length (padStart k (showNat n)) = k"
  using showNat_length[of n k] by (simp add: padStart_def)

lemma matches_pad:
  "n < 10 ^ k \<Longrightarrow> 0 < k \<Longrightarrow> matches (replicate k (CHR ''d'')) (padStart k (showNat n))"
  using matches_digits[OF padStart_digits, of k n] padStart_length[of n k] by simp

lemma toISOString_form: "validDate d \<Longrightarrow> isISO8601 (toISOString d)"
proof -
  assume v: "validDate d"
  have t: "''dddd-dd-ddTdd:dd:dd.dddZ'' =
      replicate 4 (CHR ''d'') @ ''-'' @ replicate 2 (CHR ''d'') @ ''-'' @ replicate 2 (CHR ''d'')
      @ ''T'' @ replicate 2 (CHR ''d'') @ '':'' @ replicate 2 (CHR ''d'') @ '':''
      @ replicate 2 (CHR ''d'') @ ''.'' @ replicate 3 (CHR ''d'') @ ''Z''"
    by (simp add: numeral_eq_Suc)
  have y: "year d < 10 ^ 4" and mo: "month d < 10 ^ 2" and da: "day d < 10 ^ 2"
    and h: "hours d < 10 ^ 2" and mi: "minutes d < 10 ^ 2" and s: "seconds d < 10 ^ 2"
    and ms: "milliseconds d < 10 ^ 3" and y': "year d \<le> 9999"
    using v by (simp_all add: validDate_def)
  show ?thesis
    unfolding isISO8601_def toISOString_def t
    using y'
    by (simp add: matches_append padStart_length[OF y] padStart_length[OF mo]
        padStart_length[OF da] padStart_length[OF h] padStart_length[OF mi]
        padStart_length[OF s] padStart_length[OF ms]
        matches_pad[OF y] matches_pad[OF mo] matches_pad[OF da] matches_pad[OF h]
        matches_pad[OF mi] matches_pad[OF s] matches_pad[OF ms])
qed

lemma sockets_handleClientDisconnect [simp]:
  "sockets (handleClientDisconnect c w) = sockets w"
  by (simp add: handleClientDisconnect_def clients_delete_def ws_close_def clearTimeout_def
      clearInterval_def Let_def split: option.splits)

lemma inbox_ws_send:
  "inbox (sockets (snd (ws_send h d w)) g) =
     (if g = h \<and> \<not> nextThrows (sockets w h) then inbox (sockets w g) @ [d]
      else inbox (sockets w g))"
  by (simp add: ws_send_def afterCall_def Let_def)

lemma inbox_sendLoop:
  "\<exists>n. inbox (sockets (sendLoop d ks w) g) = inbox (sockets w g) @ replicate n d"
proof (induction ks arbitrary: w)
  case Nil
  have "inbox (sockets w g) = inbox (sockets w g) @ replicate 0 d" by simp
  then show ?case by (metis sendLoop.simps(1))
next
  case (Cons k ks)
  show ?case
  proof (cases "clients_get k w")
    case None
    then show ?thesis using Cons.IH[of w] by (simp only: sendLoop_Cons) simp
  next
    case (Some h)
    define w1 where "w1 = (if nextThrows (sockets w h)
                           then handleClientDisconnect k (snd (ws_send h d w))
                           else snd (ws_send h d w))"
    have s: "sendLoop d (k # ks) w = sendLoop d ks w1"
      using Some by (simp only: sendLoop_Cons w1_def) simp
    obtain n where n: "inbox (sockets (sendLoop d ks w1) g) = inbox (sockets w1 g) @ replicate n d"
      using Cons.IH[of w1] by blast
    have "inbox (sockets w1 g) = inbox (sockets w g)
        \<or> inbox (sockets w1 g) = inbox (sockets w g) @ [d]"
      by (simp add: w1_def inbox_ws_send)
    then show ?thesis
    proof
      assume "inbox (sockets w1 g) = inbox (sockets w g)"
      then show ?thesis using n s by auto
    next
      assume "inbox (sockets w1 g) = inbox (sockets w g) @ [d]"
      then have "inbox (sockets (sendLoop d (k # ks) w) g)
          = inbox (sockets w g) @ replicate (Suc n) d"
        using n s by simp
      then show ?thesis by blast
    qed
  qed
qed

lemma inbox_sendStatusToClient:
  "\<exists>n. inbox (sockets (sendStatusToClient c m now w) g)
        = inbox (sockets w g) @ replicate n (statusFrame m now (isConnectedToSFU w))"
proof -
  have "inbox (sockets (sendStatusToClient c m now w) g) = inbox (sockets w g)
      \<or> inbox (sockets (sendStatusToClient c m now w) g)
          = inbox (sockets w g) @ [statusFrame m now (isConnectedToSFU w)]"
    by (simp add: sendStatusToClient_alt inbox_ws_send split: option.splits)
  then show ?thesis
  proof
    assume "inbox (sockets (sendStatusToClient c m now w) g) = inbox (sockets w g)"
    then have "inbox (sockets (sendStatusToClient c m now w) g)
        = inbox (sockets w g) @ replicate 0 (statusFrame m now (isConnectedToSFU w))" by simp
    then show ?thesis by blast
  next
    assume "inbox (sockets (sendStatusToClient c m now w) g)
          = inbox (sockets w g) @ [statusFrame m now (isConnectedToSFU w)]"
    then have "inbox (sockets (sendStatusToClient c m now w) g)
        = inbox (sockets w g) @ replicate 1 (statusFrame m now (isConnectedToSFU w))" by simp
    then show ?thesis by blast
  qed
qed

subsection \<open>Splitting a name\<close>

lemma js_split_nonempty: "js_split sep s \<noteq> []"
  by (induction s) (auto split: list.splits)

lemma js_split_no_sep: "sep \<notin> set a \<Longrightarrow> js_split sep a = [a]"
  by (induction a) auto

lemma js_split_at_sep: "sep \<notin> set a \<Longrightarrow> js_split sep (a @ sep # r) = a # js_split sep r"
  by (induction a) auto

lemma js_index_no_sep: "sep \<notin> set n \<Longrightarrow> js_index (js_split sep n) 1 = None"
  by (simp add: js_split_no_sep js_index_def)

lemma js_index_last: "sep \<notin> set a \<Longrightarrow> sep \<notin> set b \<Longrightarrow> js_index (js_split sep (a @ sep # b)) 1 = Some b"
  by (simp add: js_split_at_sep js_split_no_sep js_index_def)

lemma js_index_middle:
  "sep \<notin> set a \<Longrightarrow> sep \<notin> set b \<Longrightarrow> js_index (js_split sep (a @ sep # b @ sep # r)) 1 = Some b"
  using js_split_nonempty[of sep r]
  by (cases "js_split sep r") (simp_all add: js_split_at_sep js_index_def)

section \<open>The claims\<close>


text \<open>
  What this revision's listener does with its one slot, for every frame and state: it
  fills the slot with the incoming frame exactly when the slot is falsy (\<open>null\<close>, or an
  empty text frame), whatever the frame's leading byte; and once the slot holds a binary
  frame, no later event of any kind replaces it.
\<close>

lemma cache_once_single_slot:
  "codecDescription (onSfuMessage d now w) =
     (if truthy (codecDescription w) then codecDescription w else Some d)
   \<and> (run es v = Some v' \<and> codecDescription v = Some (ArrayBuffer b)
        \<longrightarrow> codecDescription v' = Some (ArrayBuffer b))"
  using codec_run[of es v v' b] by (simp add: codec_onSfuMessage)

text \<open>
  An instance: the first viewer joins, the upstream opens and delivers the video init
  frame, which is cached; the audio init frame that follows leaves the slot as it is, and
  so does everything after it.
\<close>

lemma cache_once_single_slot_witness:
  "codecDescription (afterEvents [Join ''a'' [] False, SfuOpen 0, SfuMessage 0 videoInit])
     = Some (ArrayBuffer [0, 9])
   \<and> run (map at0 [SfuMessage 0 audioInit, Join ''b'' [] False, SfuClose 0, ReconnectTimer 1])
        (afterEvents [Join ''a'' [] False, SfuOpen 0, SfuMessage 0 videoInit])
     = Some (afterEvents [Join ''a'' [] False, SfuOpen 0, SfuMessage 0 videoInit,
                          SfuMessage 0 audioInit, Join ''b'' [] False, SfuClose 0, ReconnectTimer 1])
   \<and> codecDescription (afterEvents [Join ''a'' [] False, SfuOpen 0, SfuMessage 0 videoInit,
                          SfuMessage 0 audioInit, Join ''b'' [] False, SfuClose 0, ReconnectTimer 1])
     = Some (ArrayBuffer [0, 9])
   \<and> codecDescription (onSfuMessage audioInit clock0
        (afterEvents [Join ''a'' [] False, SfuOpen 0, SfuMessage 0 videoInit]))
     = Some (ArrayBuffer [0, 9])"
proof -
  have c: "codecDescription (afterEvents [Join ''a'' [] False, SfuOpen 0, SfuMessage 0 videoInit])
     = Some (ArrayBuffer [0, 9])"
    by (simp add: afterEvents_def evals)
  have r: "run (map at0 [SfuMessage 0 audioInit, Join ''b'' [] False, SfuClose 0, ReconnectTimer 1])
        (afterEvents [Join ''a'' [] False, SfuOpen 0, SfuMessage 0 videoInit])
     = Some (afterEvents [Join ''a'' [] False, SfuOpen 0, SfuMessage 0 videoInit,
                          SfuMessage 0 audioInit, Join ''b'' [] False, SfuClose 0, ReconnectTimer 1])"
    by (simp add: afterEvents_def evals)
  show ?thesis
    using c r cache_once_single_slot[of audioInit clock0
      "afterEvents [Join ''a'' [] False, SfuOpen 0, SfuMessage 0 videoInit]"
      "map at0 [SfuMessage 0 audioInit, Join ''b'' [] False, SfuClose 0, ReconnectTimer 1]"
      "afterEvents [Join ''a'' [] False, SfuOpen 0, SfuMessage 0 videoInit]"
      "afterEvents [Join ''a'' [] False, SfuOpen 0, SfuMessage 0 videoInit,
                    SfuMessage 0 audioInit, Join ''b'' [] False, SfuClose 0, ReconnectTimer 1]"
      "[0, 9]"]
    by simp
qed

text \<open>
  C2. Fan-out isolation. The registry holds three viewers; the socket of one of them (the
  one at position \<open>k\<close>) throws on every call of \<open>send\<close>, the other two never throw. One
  call of \<open>fanOutToClients\<close> removes exactly the throwing viewer from the registry,
  delivers the frame exactly once to each of the other two and nothing to the throwing
  one, and leaves the upstream connection, the connected flag and both timers alone.
  Every \<open>send\<close> is inside \<open>try\<close>, so the call returns normally: \<open>fanOutToClients\<close> has no
  exceptional result.
\<close>

theorem fanOut_isolation:
  assumes cs: "clients w = [(i1, h1), (i2, h2), (i3, h3)]"
    and ids: "distinct [i1, i2, i3]" and hs: "distinct [h1, h2, h3]"
    and k: "k < 3"
    and bad: "alwaysThrows (sockets w ([h1, h2, h3] ! k))"
    and good: "\<forall>j<3. j \<noteq> k \<longrightarrow> neverThrows (sockets w ([h1, h2, h3] ! j))"
  shows "clients (fanOutToClients d w) = take k (clients w) @ drop (Suc k) (clients w)
       \<and> (\<forall>j<3. j \<noteq> k \<longrightarrow>
            inbox (sockets (fanOutToClients d w) ([h1, h2, h3] ! j))
              = inbox (sockets w ([h1, h2, h3] ! j)) @ [d])
       \<and> inbox (sockets (fanOutToClients d w) ([h1, h2, h3] ! k))
           = inbox (sockets w ([h1, h2, h3] ! k))
       \<and> sfuConnection (fanOutToClients d w) = sfuConnection w
       \<and> isConnectedToSFU (fanOutToClients d w) = isConnectedToSFU w
       \<and> reconnectTimeout (fanOutToClients d w) = reconnectTimeout w
       \<and> heartbeatInterval (fanOutToClients d w) = heartbeatInterval w"
proof -
  have ids': "i1 \<noteq> i2" "i1 \<noteq> i3" "i2 \<noteq> i3" "i2 \<noteq> i1" "i3 \<noteq> i1" "i3 \<noteq> i2"
    using ids by auto
  have hs': "h1 \<noteq> h2" "h1 \<noteq> h3" "h2 \<noteq> h3" "h2 \<noteq> h1" "h3 \<noteq> h1" "h3 \<noteq> h2"
    using hs by auto
  from k consider "k = 0" | "k = Suc 0" | "k = Suc (Suc 0)"
    by (auto simp: numeral_3_eq_3 less_Suc_eq)
  then show ?thesis
  proof cases
    case 1
    have t: "nextThrows (sockets w h1)" "\<not> nextThrows (sockets w h2)"
      "\<not> nextThrows (sockets w h3)"
      using bad good 1 by (auto simp: all_less_three alwaysThrows_next neverThrows_next)
    show ?thesis using cs ids' hs' t 1
      by (simp add: all_less_three fanOutToClients_def clients_get_def ws_send_def Let_def
          handleClientDisconnect_def clients_delete_def afterCall_def)
  next
    case 2
    have t: "\<not> nextThrows (sockets w h1)" "nextThrows (sockets w h2)"
      "\<not> nextThrows (sockets w h3)"
      using bad good 2 by (auto simp: all_less_three alwaysThrows_next neverThrows_next)
    show ?thesis using cs ids' hs' t 2
      by (simp add: all_less_three fanOutToClients_def clients_get_def ws_send_def Let_def
          handleClientDisconnect_def clients_delete_def afterCall_def)
  next
    case 3
    have t: "\<not> nextThrows (sockets w h1)" "\<not> nextThrows (sockets w h2)"
      "nextThrows (sockets w h3)"
      using bad good 3 by (auto simp: all_less_three alwaysThrows_next neverThrows_next)
    show ?thesis using cs ids' hs' t 3
      by (simp add: all_less_three fanOutToClients_def clients_get_def ws_send_def Let_def
          handleClientDisconnect_def clients_delete_def afterCall_def)
  qed
qed

text \<open>
  Witness for C2: viewers \<open>a\<close>, \<open>b\<close> and \<open>c\<close> have joined; the socket of \<open>b\<close> took the
  initial status frame and throws on every call since. The video frame is fanned out.
\<close>

theorem fanOut_isolation_witness:
  "clients (afterEvents [Join ''a'' [] False, Join ''b'' [False] True, Join ''c'' [] False])
     = [(''a'', 0), (''b'', 1), (''c'', 2)]
   \<and> alwaysThrows (sockets (afterEvents [Join ''a'' [] False, Join ''b'' [False] True, Join ''c'' [] False]) 1)
   \<and> neverThrows (sockets (afterEvents [Join ''a'' [] False, Join ''b'' [False] True, Join ''c'' [] False]) 0)
   \<and> neverThrows (sockets (afterEvents [Join ''a'' [] False, Join ''b'' [False] True, Join ''c'' [] False]) 2)
   \<and> clients (fanOutToClients videoInit
        (afterEvents [Join ''a'' [] False, Join ''b'' [False] True, Join ''c'' [] False]))
     = [(''a'', 0), (''c'', 2)]
   \<and> binaryFrames 0 (fanOutToClients videoInit
        (afterEvents [Join ''a'' [] False, Join ''b'' [False] True, Join ''c'' [] False])) = [videoInit]
   \<and> binaryFrames 1 (fanOutToClients videoInit
        (afterEvents [Join ''a'' [] False, Join ''b'' [False] True, Join ''c'' [] False])) = []
   \<and> binaryFrames 2 (fanOutToClients videoInit
        (afterEvents [Join ''a'' [] False, Join ''b'' [False] True, Join ''c'' [] False])) = [videoInit]"
proof -
  define W where "W = afterEvents [Join ''a'' [] False, Join ''b'' [False] True, Join ''c'' [] False]"
  have c: "clients W = [(''a'', 0), (''b'', 1), (''c'', 2)]"
    by (simp add: W_def afterEvents_def evals)
  have t: "alwaysThrows (sockets W 1)" "neverThrows (sockets W 0)" "neverThrows (sockets W 2)"
    by (simp_all add: W_def afterEvents_def evals alwaysThrows_def neverThrows_def)
  have b: "binaryFrames 0 W = []" "binaryFrames 1 W = []" "binaryFrames 2 W = []"
    by (simp_all add: W_def afterEvents_def evals binaryFrames_def)
  have "clients (fanOutToClients videoInit W) = [(''a'', 0), (''c'', 2)]
      \<and> binaryFrames 0 (fanOutToClients videoInit W) = [videoInit]
      \<and> binaryFrames 1 (fanOutToClients videoInit W) = []
      \<and> binaryFrames 2 (fanOutToClients videoInit W) = [videoInit]"
    using fanOut_isolation[of W "''a''" 0 "''b''" 1 "''c''" 2 1 videoInit] c t b
    by (simp add: all_less_three binaryFrames_def videoInit_def)
  with c t show ?thesis by (simp add: W_def)
qed


text \<open>
  What this revision's \<open>fetch\<close> sends to a late joiner, for every state: when a viewer
  joins with a fresh id while other viewers are registered, the connected flag is set and
  the slot holds a truthy frame, and the first two \<open>send\<close> calls on its socket do not
  throw, \<open>fetch\<close> answers 101, registers the viewer last, and sends to this one socket the
  initial status frame and then the frame in the slot. Both are sent before \<open>fetch\<close>
  returns; no other socket is sent anything and no other field of the relay changes.
\<close>

lemma late_joiner_replay:
  assumes "upgradeHeader req = Some ''websocket''"
    and "clientId \<notin> set (map fst (clients w))"
    and "clients w \<noteq> []"
    and "isConnectedToSFU w"
    and "codecDescription w = Some codec" and "truthy (Some codec)"
    and "\<not> nextThrows server" and "\<not> nextThrows (afterCall server)"
    and "inbox server = []"
  shows "fetch req clientId server now w =
     (Inr \<lparr>status = 101, body = None, headers = [], webSocket = Some (nextSocket w)\<rparr>,
      w\<lparr>clients := clients w @ [(clientId, nextSocket w)],
        sockets := (sockets w)(nextSocket w := (afterCall (afterCall server))
          \<lparr>inbox := [statusFrame (''Connected to stream relay, state: '' @ stateId w
                                   @ ''. Waiting for media...'') now True,
                      codec]\<rparr>),
        nextSocket := Suc (nextSocket w)\<rparr>)"
proof -
  have ne: "length (clients w) \<noteq> 0" using assms(3) by simp
  have m: "map_of (clients w @ [(clientId, nextSocket w)]) clientId = Some (nextSocket w)"
    using assms(2) by (simp add: map_of_eq_None_iff[THEN iffD2] map_add_def)
  have nt: "\<not> nextThrows (afterCall server\<lparr>inbox := [x]\<rparr>)" for x
    using assms(8) by (simp add: nextThrows_def afterCall_def split: list.splits)
  show ?thesis
    using assms ne m nt
    by (simp add: fetch_def clients_set_def sendStatusToClient_def clients_get_def ws_send_def
        Let_def statusFrame_def afterCall_def)
qed

text \<open>
  An instance: viewer \<open>a\<close> watches, the upstream is open and has delivered the video and
  then the audio init frame; viewer \<open>b\<close> joins.
\<close>

lemma late_joiner_replay_witness:
  "upgradeHeader \<lparr>upgradeHeader = Some ''websocket'', pathname = ''/stream/alpha''\<rparr> = Some ''websocket''
   \<and> ''b'' \<notin> set (map fst (clients (afterEvents [Join ''a'' [] False, SfuOpen 0,
                                      SfuMessage 0 videoInit, SfuMessage 0 audioInit])))
   \<and> clients (afterEvents [Join ''a'' [] False, SfuOpen 0,
                            SfuMessage 0 videoInit, SfuMessage 0 audioInit]) \<noteq> []
   \<and> isConnectedToSFU (afterEvents [Join ''a'' [] False, SfuOpen 0,
                            SfuMessage 0 videoInit, SfuMessage 0 audioInit])
   \<and> codecDescription (afterEvents [Join ''a'' [] False, SfuOpen 0,
                            SfuMessage 0 videoInit, SfuMessage 0 audioInit]) = Some videoInit
   \<and> truthy (Some videoInit)
   \<and> \<not> nextThrows \<lparr>failScript = [], failRest = False, inbox = []\<rparr>
   \<and> \<not> nextThrows (afterCall \<lparr>failScript = [], failRest = False, inbox = []\<rparr>)
   \<and> inbox (sockets (snd (fetch \<lparr>upgradeHeader = Some ''websocket'', pathname = ''/stream/alpha''\<rparr>
                 ''b'' \<lparr>failScript = [], failRest = False, inbox = []\<rparr> clock0
                 (afterEvents [Join ''a'' [] False, SfuOpen 0,
                               SfuMessage 0 videoInit, SfuMessage 0 audioInit]))) 1)
     = [statusFrame ''Connected to stream relay, state: 0a1b. Waiting for media...'' clock0 True,
        videoInit]"
proof -
  define W where "W = afterEvents [Join ''a'' [] False, SfuOpen 0,
                            SfuMessage 0 videoInit, SfuMessage 0 audioInit]"
  have h: "''b'' \<notin> set (map fst (clients W))" "clients W \<noteq> []" "isConnectedToSFU W"
    "codecDescription W = Some videoInit" "nextSocket W = 1" "stateId W = ''0a1b''"
    by (simp_all add: W_def afterEvents_def evals)
  have t: "truthy (Some videoInit)"
    "\<not> nextThrows \<lparr>failScript = [], failRest = False, inbox = []\<rparr>"
    "\<not> nextThrows (afterCall \<lparr>failScript = [], failRest = False, inbox = []\<rparr>)"
    by (simp_all add: videoInit_def nextThrows_def afterCall_def)
  have "inbox (sockets (snd (fetch \<lparr>upgradeHeader = Some ''websocket'', pathname = ''/stream/alpha''\<rparr>
                 ''b'' \<lparr>failScript = [], failRest = False, inbox = []\<rparr> clock0 W)) 1)
     = [statusFrame ''Connected to stream relay, state: 0a1b. Waiting for media...'' clock0 True,
        videoInit]"
    using late_joiner_replay[of "\<lparr>upgradeHeader = Some ''websocket'', pathname = ''/stream/alpha''\<rparr>"
        "''b''" W videoInit "\<lparr>failScript = [], failRest = False, inbox = []\<rparr>" clock0] h t
    by simp
  with h t show ?thesis by (simp add: W_def)
qed

text \<open>
  C4, evaluated where the code departs from it. Viewer \<open>a\<close> joins the empty registry: the
  upstream connect starts (socket 0) and the heartbeat is armed (interval 0). Then viewer
  \<open>b\<close> joins with a socket whose first \<open>send\<close> throws. \<open>sendStatusToClient\<close> catches the
  failure and removes \<open>b\<close>, the registry is back to size one, and the test
  \<open>this.clients.size === 1\<close> that follows takes the first-client branch again: a second
  upstream socket is opened while socket 0 is still connecting, and \<open>startHeartbeat\<close>
  clears interval 0 and arms interval 1. The heartbeat is restarted by a join while it is
  armed, with no change of the registry from empty to non-empty.
\<close>

theorem heartbeat_restarted_by_failed_join:
  "map_option clients (run (map at0 [Join ''a'' [] False]) relay0) = Some [(''a'', 0)]
   \<and> map_option heartbeatInterval (run (map at0 [Join ''a'' [] False]) relay0) = Some (Some 0)
   \<and> map_option liveIntervals (run (map at0 [Join ''a'' [] False]) relay0) = Some {0}
   \<and> map_option nextUpstream (run (map at0 [Join ''a'' [] False]) relay0) = Some 1
   \<and> map_option clients (run (map at0 [Join ''a'' [] False, Join ''b'' [True] False]) relay0)
       = Some [(''a'', 0)]
   \<and> map_option heartbeatInterval
        (run (map at0 [Join ''a'' [] False, Join ''b'' [True] False]) relay0) = Some (Some 1)
   \<and> map_option liveIntervals
        (run (map at0 [Join ''a'' [] False, Join ''b'' [True] False]) relay0) = Some {1}
   \<and> map_option nextUpstream
        (run (map at0 [Join ''a'' [] False, Join ''b'' [True] False]) relay0) = Some 2
   \<and> map_option (upstreamState 0)
        (run (map at0 [Join ''a'' [] False, Join ''b'' [True] False]) relay0) = Some CONNECTING
   \<and> map_option (upstreamState 1)
        (run (map at0 [Join ''a'' [] False, Join ''b'' [True] False]) relay0) = Some CONNECTING"
  by (simp add: evals upstreamState_def)

text \<open>
  A second run for C4, in which the heartbeat ends up armed on an empty registry. The
  relay's upstream address is one that \<open>new WebSocket\<close> rejects, and the first viewer's
  socket takes the initial status frame and throws on the next \<open>send\<close>. The \<open>catch\<close> block
  of \<open>connectToSFU\<close> broadcasts the failure, the broadcast removes the viewer and tears the
  relay down, and \<open>fetch\<close> then calls \<open>startHeartbeat\<close> all the same.
\<close>

lemma heartbeat_armed_on_empty_registry:
  "map_option clients (run (map at0 [Join ''a'' [False, True] False]) relayBadUrl) = Some []
   \<and> map_option heartbeatInterval
        (run (map at0 [Join ''a'' [False, True] False]) relayBadUrl) = Some (Some 0)
   \<and> map_option liveIntervals
        (run (map at0 [Join ''a'' [False, True] False]) relayBadUrl) = Some {0}"
  by (simp add: evals)

text \<open>
  C5, evaluated where the code departs from it. Viewer \<open>a\<close> joins and the upstream socket 0
  opens. Viewer \<open>a\<close> leaves: the relay calls \<open>close()\<close> on socket 0 and forgets it. Viewer
  \<open>b\<close> joins before the close event of socket 0 has fired, and socket 1 is being
  connected. Now the close event of socket 0 arrives. Its listener does not ask which
  socket fired it: it clears the connected flag and, the registry being non-empty and no
  timer pending, arms reconnect timer 2, while the attempt on socket 1 is pending. Socket 1
  opens: the relay is connected and the reconnect timer is still armed. When the timer
  fires, \<open>connectToSFU\<close> opens socket 2 and leaves socket 1 open; both sockets consume
  the stream, and viewer \<open>b\<close> is sent each frame twice.
\<close>

theorem reconnect_timer_armed_while_connected:
  "map_option reconnectTimeout
      (run (map at0 [Join ''a'' [] False, SfuOpen 0, ViewerClosed ''a'', Join ''b'' [] False,
                     SfuClose 0]) relay0) = Some (Some 2)
   \<and> map_option sfuConnection
      (run (map at0 [Join ''a'' [] False, SfuOpen 0, ViewerClosed ''a'', Join ''b'' [] False,
                     SfuClose 0]) relay0) = Some (Some 1)
   \<and> map_option (upstreamState 1)
      (run (map at0 [Join ''a'' [] False, SfuOpen 0, ViewerClosed ''a'', Join ''b'' [] False,
                     SfuClose 0]) relay0) = Some CONNECTING
   \<and> map_option clients
      (run (map at0 [Join ''a'' [] False, SfuOpen 0, ViewerClosed ''a'', Join ''b'' [] False,
                     SfuClose 0, SfuOpen 1]) relay0) = Some [(''b'', 1)]
   \<and> map_option isConnectedToSFU
      (run (map at0 [Join ''a'' [] False, SfuOpen 0, ViewerClosed ''a'', Join ''b'' [] False,
                     SfuClose 0, SfuOpen 1]) relay0) = Some True
   \<and> map_option reconnectTimeout
      (run (map at0 [Join ''a'' [] False, SfuOpen 0, ViewerClosed ''a'', Join ''b'' [] False,
                     SfuClose 0, SfuOpen 1]) relay0) = Some (Some 2)
   \<and> map_option liveTimeouts
      (run (map at0 [Join ''a'' [] False, SfuOpen 0, ViewerClosed ''a'', Join ''b'' [] False,
                     SfuClose 0, SfuOpen 1]) relay0) = Some {2}
   \<and> map_option sfuConnection
      (run (map at0 [Join ''a'' [] False, SfuOpen 0, ViewerClosed ''a'', Join ''b'' [] False,
                     SfuClose 0, SfuOpen 1, ReconnectTimer 2]) relay0) = Some (Some 2)
   \<and> map_option (upstreamState 1)
      (run (map at0 [Join ''a'' [] False, SfuOpen 0, ViewerClosed ''a'', Join ''b'' [] False,
                     SfuClose 0, SfuOpen 1, ReconnectTimer 2]) relay0) = Some OPEN
   \<and> map_option (upstreamState 2)
      (run (map at0 [Join ''a'' [] False, SfuOpen 0, ViewerClosed ''a'', Join ''b'' [] False,
                     SfuClose 0, SfuOpen 1, ReconnectTimer 2]) relay0) = Some CONNECTING
   \<and> map_option (binaryFrames 1)
      (run (map at0 [Join ''a'' [] False, SfuOpen 0, ViewerClosed ''a'', Join ''b'' [] False,
                     SfuClose 0, SfuOpen 1, ReconnectTimer 2, SfuOpen 2,
                     SfuMessage 1 videoInit, SfuMessage 2 videoInit]) relay0)
       = Some [videoInit, videoInit]"
  by (simp add: evals upstreamState_def binaryFrames_def)

text \<open>
  C6. Idempotence of \<open>handleClientDisconnect\<close> (the specification's \<open>handleViewerClosed\<close>):
  for every client id and every state, a second call with the same id changes nothing at
  all, so in particular not the registry, the upstream connection, the connected flag or
  either timer handle.
\<close>

theorem handleClientDisconnect_idempotent:
  "handleClientDisconnect clientId (handleClientDisconnect clientId w)
     = handleClientDisconnect clientId w"
proof (cases "clients (clients_delete clientId w) = []")
  case True
  show ?thesis
    by (rule hcd_settled)
       (rule hcd_empty_clients[OF True] hcd_empty_sfu[OF True] hcd_empty_flag[OF True]
             hcd_empty_timer[OF True] hcd_empty_heartbeat[OF True])+
next
  case False
  have 1: "handleClientDisconnect clientId w = clients_delete clientId w"
    by (rule hcd_nonempty[OF False])
  have "clients (clients_delete clientId (clients_delete clientId w)) \<noteq> []"
    using False by (simp add: clients_delete_idem)
  then have "handleClientDisconnect clientId (clients_delete clientId w)
      = clients_delete clientId (clients_delete clientId w)"
    by (rule hcd_nonempty)
  with 1 show ?thesis by (simp add: clients_delete_idem)
qed

text \<open>Witness for C6: the only viewer leaves, and its socket reports the close twice.\<close>

theorem handleClientDisconnect_idempotent_witness:
  "handleClientDisconnect ''a'' (handleClientDisconnect ''a'' (afterEvents [Join ''a'' [] False]))
     = handleClientDisconnect ''a'' (afterEvents [Join ''a'' [] False])"
  by (rule handleClientDisconnect_idempotent)

text \<open>
  C7. The health endpoint. For every state, a request for \<open>/health\<close> that is not a
  WebSocket upgrade is answered with the JSON text of the record \<open>status = "ok"\<close>,
  \<open>streamId\<close>, \<open>clientCount\<close> (the size of the registry) and \<open>connectedToSFU\<close> (the connected
  flag), and nothing else; the state after the request is the state before it.
\<close>

theorem health_read:
  assumes "upgradeHeader req \<noteq> Some ''websocket''" and "pathname req = ''/health''"
  shows "fetch req clientId server now w =
     (Inr \<lparr>status = 200,
           body = Some (JSON_stringify (JObject
                    [(''status'', JString ''ok''),
                     (''streamId'', JString (streamId w)),
                     (''clientCount'', JNumber (length (clients w))),
                     (''connectedToSFU'', JBool (isConnectedToSFU w))])),
           headers = [(''Content-Type'', ''application/json'')],
           webSocket = None\<rparr>,
      w)"
  using assms by (simp add: fetch_def)

text \<open>Witness for C7: the health of a relay for stream \<open>alpha\<close> that nobody watches yet.\<close>

theorem health_read_witness:
  \<open>upgradeHeader \<lparr>upgradeHeader = None, pathname = ''/health''\<rparr> \<noteq> Some ''websocket''
   \<and> pathname \<lparr>upgradeHeader = None, pathname = ''/health''\<rparr> = ''/health''
   \<and> fetch \<lparr>upgradeHeader = None, pathname = ''/health''\<rparr> ''c''
        \<lparr>failScript = [], failRest = False, inbox = []\<rparr> clock0 relay0 =
     (Inr \<lparr>status = 200,
           body = Some ''{"status":"ok","streamId":"alpha","clientCount":0,"connectedToSFU":false}'',
           headers = [(''Content-Type'', ''application/json'')],
           webSocket = None\<rparr>,
      relay0)\<close>
proof -
  have j: \<open>JSON_stringify (JObject
                    [(''status'', JString ''ok''),
                     (''streamId'', JString ''alpha''),
                     (''clientCount'', JNumber 0),
                     (''connectedToSFU'', JBool False)])
     = ''{"status":"ok","streamId":"alpha","clientCount":0,"connectedToSFU":false}''\<close>
    by code_simp
  have r: "streamId relay0 = ''alpha''" "clients relay0 = []" "isConnectedToSFU relay0 = False"
    by (simp_all add: evals)
  show ?thesis
    using health_read[of "\<lparr>upgradeHeader = None, pathname = ''/health''\<rparr>" "''c''"
        "\<lparr>failScript = [], failRest = False, inbox = []\<rparr>" clock0 relay0] j r
    by simp
qed

text \<open>
  C8. The upstream target. Let the relay be constructed for a Durable Object name and an
  optional \<open>SFU_SERVER_URL\<close>, and let any events have happened since. Every upstream
  socket the relay has opened was opened on the URL made of the base address (the
  configured one, or \<open>ws://127.0.0.1:5500\<close> when it is unset or empty), the fixed segment
  \<open>/consume/\<close> and the stream id of the relay, and the next call of \<open>connectToSFU\<close> targets
  the same URL. A relay named \<open>stream:alpha\<close> has the stream id \<open>alpha\<close>, so its target is
  \<open><base>/consume/alpha\<close>.
\<close>

theorem upstream_target:
  assumes "run es (constructor idString name SFU_SERVER_URL thr) = Some w"
  shows "(c < nextUpstream w \<longrightarrow>
            url (upstreams w c) =
              (case SFU_SERVER_URL of
                 None \<Rightarrow> ''ws://127.0.0.1:5500''
               | Some u \<Rightarrow> if u = [] then ''ws://127.0.0.1:5500'' else u)
              @ ''/consume/'' @ streamId (constructor idString name SFU_SERVER_URL thr))
       \<and> currentWsUrl (connectToSFU now w) = Some
              ((case SFU_SERVER_URL of
                 None \<Rightarrow> ''ws://127.0.0.1:5500''
               | Some u \<Rightarrow> if u = [] then ''ws://127.0.0.1:5500'' else u)
              @ ''/consume/'' @ streamId (constructor idString name SFU_SERVER_URL thr))
       \<and> streamId (constructor idString (Some ''stream:alpha'') SFU_SERVER_URL thr) = ''alpha''"
proof -
  define base where "base = (case SFU_SERVER_URL of
                 None \<Rightarrow> ''ws://127.0.0.1:5500''
               | Some u \<Rightarrow> if u = [] then ''ws://127.0.0.1:5500'' else u)"
  define sid where "sid = streamId (constructor idString name SFU_SERVER_URL thr)"
  have j: "js_or SFU_SERVER_URL ''ws://127.0.0.1:5500'' = base"
    by (simp add: js_or_def base_def)
  have "targetsOK base sid (constructor idString name SFU_SERVER_URL thr)"
    using targetsOK_constructor[of SFU_SERVER_URL idString name thr] j by (simp add: sid_def)
  from targetsOK_run[OF assms this] have ok: "targetsOK base sid w" .
  have a: "streamId (constructor idString (Some ''stream:alpha'') SFU_SERVER_URL thr) = ''alpha''"
    by (simp add: constructor_def js_or_def js_index_def)
  show ?thesis
    unfolding base_def[symmetric] sid_def[symmetric]
    using ok a by (simp add: targetsOK_def currentWsUrl_connectToSFU)
qed

text \<open>
  Witness for C8: for stream \<open>alpha\<close> with no address configured, the first connect and
  the reconnect after a failure both go to \<open>ws://127.0.0.1:5500/consume/alpha\<close>.
\<close>

theorem upstream_target_witness:
  "run (map at0 [Join ''a'' [] False, SfuError 0, SfuClose 0, ReconnectTimer 1])
       (constructor ''0a1b'' (Some ''stream:alpha'') None noCtorFailure)
     = Some (afterEvents [Join ''a'' [] False, SfuError 0, SfuClose 0, ReconnectTimer 1])
   \<and> nextUpstream (afterEvents [Join ''a'' [] False, SfuError 0, SfuClose 0, ReconnectTimer 1]) = 2
   \<and> url (upstreams (afterEvents [Join ''a'' [] False, SfuError 0, SfuClose 0, ReconnectTimer 1]) 0)
       = ''ws://127.0.0.1:5500/consume/alpha''
   \<and> url (upstreams (afterEvents [Join ''a'' [] False, SfuError 0, SfuClose 0, ReconnectTimer 1]) 1)
       = ''ws://127.0.0.1:5500/consume/alpha''"
proof -
  define W where "W = afterEvents [Join ''a'' [] False, SfuError 0, SfuClose 0, ReconnectTimer 1]"
  have r: "run (map at0 [Join ''a'' [] False, SfuError 0, SfuClose 0, ReconnectTimer 1])
       (constructor ''0a1b'' (Some ''stream:alpha'') None noCtorFailure) = Some W"
    by (simp add: W_def afterEvents_def evals)
  have n: "nextUpstream W = 2"
    by (simp add: W_def afterEvents_def evals)
  from upstream_target[OF r, of 0 clock0] upstream_target[OF r, of 1 clock0] n
  have "url (upstreams W 0) = ''ws://127.0.0.1:5500/consume/alpha''
      \<and> url (upstreams W 1) = ''ws://127.0.0.1:5500/consume/alpha''"
    by simp
  with r n show ?thesis by (simp add: W_def)
qed

text \<open>
  C9. The shape of status messages. Whatever \<open>sendStatusToClient\<close> (the initial status of
  a viewer), \<open>broadcastStatusToClients\<close> and the heartbeat callback send to any socket \<open>g\<close>
  is a run of one and the same text frame, \<open>statusFrame message now connected\<close> with the
  connected flag read on entry. That frame is the JSON text of a record with exactly the
  four fields \<open>type = "status"\<close>, \<open>message\<close>, \<open>timestamp\<close> and \<open>isConnectedToSFU\<close>, and the
  timestamp of a valid clock reading has the form \<open>YYYY-MM-DDTHH:mm:ss.sssZ\<close>.
\<close>

theorem status_message_shape:
  "(\<exists>n. inbox (sockets (sendStatusToClient clientId message now w) g)
          = inbox (sockets w g) @ replicate n (statusFrame message now (isConnectedToSFU w)))
   \<and> (\<exists>n. inbox (sockets (broadcastStatusToClients message now w) g)
          = inbox (sockets w g) @ replicate n (statusFrame message now (isConnectedToSFU w)))
   \<and> (\<exists>n m. inbox (sockets (heartbeat now w) g)
          = inbox (sockets w g) @ replicate n (statusFrame m now (isConnectedToSFU w)))
   \<and> statusFrame message now connected =
        Str (JSON_stringify (JObject
          [(''type'', JString ''status''),
           (''message'', JString message),
           (''timestamp'', JString (toISOString now)),
           (''isConnectedToSFU'', JBool connected)]))
   \<and> (validDate now \<longrightarrow> isISO8601 (toISOString now))"
proof -
  have b: "\<exists>n. inbox (sockets (broadcastStatusToClients m now w) g)
          = inbox (sockets w g) @ replicate n (statusFrame m now (isConnectedToSFU w))" for m
    unfolding broadcastStatusToClients_alt by (rule inbox_sendLoop)
  have h: "\<exists>n m. inbox (sockets (heartbeat now w) g)
          = inbox (sockets w g) @ replicate n (statusFrame m now (isConnectedToSFU w))"
    unfolding heartbeat_def Let_def using b by blast
  show ?thesis
    using inbox_sendStatusToClient[of clientId message now w g] b[of message] h
      toISOString_form[of now]
    by (simp add: statusFrame_def)
qed

text \<open>
  Witness for C9: what the first viewer has been sent once the upstream is open, with the
  broadcast frame spelled out.
\<close>

theorem status_message_shape_witness:
  \<open>validDate clock0
   \<and> isISO8601 (toISOString clock0)
   \<and> toISOString clock0 = ''2025-01-02T03:04:05.006Z''
   \<and> statusFrame ''Connected to SFU server'' clock0 True
       = Str ''{"type":"status","message":"Connected to SFU server","timestamp":"2025-01-02T03:04:05.006Z","isConnectedToSFU":true}''
   \<and> inbox (sockets (afterEvents [Join ''a'' [] False, SfuOpen 0]) 0)
       = [statusFrame ''Connected to stream relay, state: 0a1b. Waiting for media...'' clock0 False,
          statusFrame ''Connected to SFU server'' clock0 True]\<close>
proof -
  have v: "validDate clock0" by (simp add: validDate_def clock0_def)
  have i: \<open>toISOString clock0 = ''2025-01-02T03:04:05.006Z''\<close> by code_simp
  have j: \<open>JSON_stringify (JObject
          [(''type'', JString ''status''),
           (''message'', JString ''Connected to SFU server''),
           (''timestamp'', JString ''2025-01-02T03:04:05.006Z''),
           (''isConnectedToSFU'', JBool True)])
     = ''{"type":"status","message":"Connected to SFU server","timestamp":"2025-01-02T03:04:05.006Z","isConnectedToSFU":true}''\<close>
    by code_simp
  have x: "inbox (sockets (afterEvents [Join ''a'' [] False, SfuOpen 0]) 0)
       = [statusFrame ''Connected to stream relay, state: 0a1b. Waiting for media...'' clock0 False,
          statusFrame ''Connected to SFU server'' clock0 True]"
    by (simp add: afterEvents_def evals statusFrame_def)
  show ?thesis
    using status_message_shape[of "''a''" "''Connected to SFU server''" clock0 relay0 0 True] v i j x
    by simp
qed

text \<open>
  C10 (as the code has it). The constructor sets \<open>streamId\<close> to the element at index 1 of
  the name split on \<open>:\<close> when that element exists and is not empty, and to \<open>test_stream\<close>
  otherwise: when the name is absent, when the split has no element at index 1, or when
  that element is the empty string. The element at index 1 is missing when the name has no
  \<open>:\<close>, and it is the text between the first \<open>:\<close> and the next one (or the end). For a
  non-empty id without \<open>:\<close> the routing layer's name \<open>stream:<id>\<close> gives back the id.
\<close>

theorem constructor_streamId:
  "streamId (constructor idString name env thr) =
     (case name of
        None \<Rightarrow> ''test_stream''
      | Some n \<Rightarrow>
          (case js_index (js_split (CHR '':'') n) 1 of
             None \<Rightarrow> ''test_stream''
           | Some e \<Rightarrow> if e = [] then ''test_stream'' else e))
   \<and> (CHR '':'' \<notin> set n \<longrightarrow> js_index (js_split (CHR '':'') n) 1 = None)
   \<and> (CHR '':'' \<notin> set a \<and> CHR '':'' \<notin> set b \<longrightarrow>
         js_index (js_split (CHR '':'') (a @ CHR '':'' # b)) 1 = Some b
       \<and> js_index (js_split (CHR '':'') (a @ CHR '':'' # b @ CHR '':'' # r)) 1 = Some b)
   \<and> (i \<noteq> [] \<and> CHR '':'' \<notin> set i \<longrightarrow>
         streamObjectName (''/stream/'' @ i) = Some (''stream:'' @ i)
       \<and> streamId (constructor idString (Some (''stream:'' @ i)) env thr) = i)"
proof -
  have 1: "streamId (constructor idString name env thr) =
     (case name of
        None \<Rightarrow> ''test_stream''
      | Some n \<Rightarrow>
          (case js_index (js_split (CHR '':'') n) 1 of
             None \<Rightarrow> ''test_stream''
           | Some e \<Rightarrow> if e = [] then ''test_stream'' else e))"
    by (simp add: constructor_def js_or_def split: option.splits)
  have 2: "js_index (js_split (CHR '':'') (''stream:'' @ i)) 1 = Some i" if "CHR '':'' \<notin> set i"
    using js_index_last[of "CHR '':''" "''stream''" i] that by simp
  have 3: "streamId (constructor idString (Some (''stream:'' @ i)) env thr) = i"
    if "i \<noteq> []" "CHR '':'' \<notin> set i"
    using 2[OF that(2)] that(1) by (simp add: constructor_def js_or_def)
  have 4: "streamObjectName (''/stream/'' @ i) = Some (''stream:'' @ i)" if "i \<noteq> []"
    using that by (simp add: streamObjectName_def)
  have 5: "CHR '':'' \<notin> set n \<longrightarrow> js_index (js_split (CHR '':'') n) 1 = None"
    using js_index_no_sep[of "CHR '':''" n] by blast
  have 6: "CHR '':'' \<notin> set a \<and> CHR '':'' \<notin> set b \<longrightarrow>
         js_index (js_split (CHR '':'') (a @ CHR '':'' # b)) 1 = Some b
       \<and> js_index (js_split (CHR '':'') (a @ CHR '':'' # b @ CHR '':'' # r)) 1 = Some b"
    using js_index_last[of "CHR '':''" a b] js_index_middle[of "CHR '':''" a b r] by blast
  have 7: "i \<noteq> [] \<and> CHR '':'' \<notin> set i \<longrightarrow>
         streamObjectName (''/stream/'' @ i) = Some (''stream:'' @ i)
       \<and> streamId (constructor idString (Some (''stream:'' @ i)) env thr) = i"
    using 3 4 by blast
  from 1 5 6 7 show ?thesis by blast
qed

text \<open>
  Witness for C10: the names \<open>main\<close>, \<open>stream:alpha\<close>, \<open>stream:\<close> and no name at all.
\<close>

theorem constructor_streamId_witness:
  "CHR '':'' \<notin> set ''main''
   \<and> streamId (constructor ''0a1b'' (Some ''main'') None noCtorFailure) = ''test_stream''
   \<and> CHR '':'' \<notin> set ''stream'' \<and> CHR '':'' \<notin> set ''alpha''
   \<and> js_index (js_split (CHR '':'') ''stream:alpha'') 1 = Some ''alpha''
   \<and> ''alpha'' \<noteq> []
   \<and> streamObjectName ''/stream/alpha'' = Some ''stream:alpha''
   \<and> streamId (constructor ''0a1b'' (Some ''stream:alpha'') None noCtorFailure) = ''alpha''
   \<and> streamId (constructor ''0a1b'' (Some ''stream:'') None noCtorFailure) = ''test_stream''
   \<and> streamId (constructor ''0a1b'' None None noCtorFailure) = ''test_stream''"
  using constructor_streamId[of "''0a1b''" "Some ''main''" None noCtorFailure "''main''" "''stream''" "''alpha''" "[]" "''alpha''"]
    constructor_streamId[of "''0a1b''" "Some ''stream:''" None noCtorFailure "''main''" "''stream''" "[]" "[]" "''alpha''"]
    constructor_streamId[of "''0a1b''" None None noCtorFailure "''main''" "''stream''" "[]" "[]" "''alpha''"]
  by simp

text \<open>
  Counterexample to C10 as stated. The path \<open>/stream/:x\<close> is routed to the object named
  \<open>stream::x\<close>. The name contains the separator and its element at index 1 is the empty
  string, yet \<open>streamId\<close> is not that element but \<open>test_stream\<close>.
\<close>

theorem streamId_empty_segment_counterexample:
  "streamObjectName ''/stream/:x'' = Some ''stream::x''
   \<and> CHR '':'' \<in> set ''stream::x''
   \<and> js_index (js_split (CHR '':'') ''stream::x'') 1 = Some []
   \<and> streamId (constructor ''0a1b'' (Some ''stream::x'') None noCtorFailure) = ''test_stream''
   \<and> streamId (constructor ''0a1b'' (Some ''stream::x'') None noCtorFailure) \<noteq> []"
  by (simp add: streamObjectName_def js_index_def constructor_def js_or_def)

end
